theory Spec2Isabelle
  imports Main
begin

section \<open>Platform string operations used by the controller\<close>

text \<open>
  The controller is JavaScript running in a browser. Widget values are strings; the
  model takes them as \<^typ>\<open>string\<close> (characters of the Latin-1 range). The
  operations below are the built-ins the source calls: \<open>String.prototype.trim\<close>,
  \<open>startsWith\<close>, \<open>split\<close>, \<open>substring(0, n)\<close> (which is \<^const>\<open>take\<close>) and
  \<open>atob\<close>.
\<close>

definition js_whitespace :: "char \<Rightarrow> bool" where
  "js_whitespace c =
     (c = CHR 0x09 \<or> c = CHR 0x0A \<or> c = CHR 0x0B \<or> c = CHR 0x0C \<or> c = CHR 0x0D
      \<or> c = CHR 0x20 \<or> c = CHR 0xA0)"

definition trim :: "string \<Rightarrow> string" where
  "trim v = rev (dropWhile js_whitespace (rev (dropWhile js_whitespace v)))"

text \<open>The guard \<open>value && value.trim()\<close>: the string is truthy and so is its trimmed form.\<close>

definition nonblank :: "string \<Rightarrow> bool" where
  "nonblank v = (v \<noteq> [] \<and> trim v \<noteq> [])"

definition startsWith :: "string \<Rightarrow> string \<Rightarrow> bool" where
  "startsWith v p = (take (length p) v = p)"

fun split :: "char \<Rightarrow> string \<Rightarrow> string list" where
  "split sep [] = [[]]"
| "split sep (c # cs) =
     (if c = sep then [] # split sep cs
      else (case split sep cs of
              [] \<Rightarrow> [[c]]
            | seg # segs \<Rightarrow> (c # seg) # segs))"

text \<open>
  \<open>atob\<close> is the browser's forgiving base64 decoder. Only whether it throws matters to
  the controller: it strips ASCII whitespace, drops one or two trailing \<open>=\<close> when the
  length is a multiple of four, and then throws when the length is 1 modulo 4 or a
  character outside the base64 alphabet remains.
\<close>

definition ascii_whitespace :: "char \<Rightarrow> bool" where
  "ascii_whitespace c =
     (c = CHR 0x09 \<or> c = CHR 0x0A \<or> c = CHR 0x0C \<or> c = CHR 0x0D \<or> c = CHR 0x20)"

definition base64_char :: "char \<Rightarrow> bool" where
  "base64_char c =
     (let n = (of_char c :: nat)
      in (65 \<le> n \<and> n \<le> 90) \<or> (97 \<le> n \<and> n \<le> 122) \<or> (48 \<le> n \<and> n \<le> 57)
         \<or> n = 43 \<or> n = 47)"

definition strip_padding :: "string \<Rightarrow> string" where
  "strip_padding d =
     (case rev d of
        c1 # c2 # r \<Rightarrow>
          if c1 = CHR ''='' \<and> c2 = CHR ''='' then rev r
          else if c1 = CHR ''='' then rev (c2 # r)
          else d
      | [c1] \<Rightarrow> if c1 = CHR ''='' then [] else d
      | [] \<Rightarrow> d)"

definition atob_ok :: "string \<Rightarrow> bool" where
  "atob_ok v =
     (let d = filter (\<lambda>c. \<not> ascii_whitespace c) v;
          d' = (if length d mod 4 = 0 then strip_padding d else d)
      in length d' mod 4 \<noteq> 1 \<and> list_all base64_char d')"

section \<open>The node, its widgets and the controller\<close>

text \<open>
  Three versions of the controller are in the repository. They differ in which widgets
  they look up, in the clearing rules and in what \<open>cleanup\<close> does:
  \<^item> \<open>Full\<close>: four sources (image, filepath, base64, pasted_base64), a clearing-rule
    table with four rows;
  \<^item> \<open>Reduced\<close>: three sources (image, filepath, base64), a table with three rows;
  \<^item> \<open>Basic\<close> (\<open>js/imgloader.js\<close>): three sources (filepath, base64, pasted_base64),
    no table and no synthetic callbacks.
\<close>

datatype variant = Full | Reduced | Basic

text \<open>
  The four inputs, named as \<open>clearOtherInputs\<close> names them: \<open>Upload\<close> is the string
  \<open>'image'\<close> (the widget named \<open>image\<close>, the file picker), \<open>Paste\<close> is \<open>'paste'\<close>
  (the widget named \<open>pasted_base64\<close>).
\<close>

datatype source = Upload | Filepath | Base64 | Paste

text \<open>
  A widget's \<open>callback\<close> slot is empty, holds a function of the host application, or
  holds the arrow function that \<open>setupEventListeners\<close> installs, which captures the
  previous content of the slot as \<open>originalCallback\<close>. Host functions act on a host
  state \<open>'h\<close> of their own and return a result \<open>'r\<close>; they do not write widget values.
\<close>

datatype ('h, 'r) callback =
    Absent
  | Host "string \<Rightarrow> 'h \<Rightarrow> 'r \<times> 'h"
  | Wrapper source "('h, 'r) callback"

fun is_absent :: "('h, 'r) callback \<Rightarrow> bool" where
  "is_absent Absent = True"
| "is_absent cb = False"

record ('h, 'r) widget =
  wvalue :: string
  callback :: "('h, 'r) callback"
  inputEl :: bool

datatype display = DisplayNone | DisplayBlock

datatype content =
    NoContent
  | Img string
  | ImgView string
  | Placeholder string

record preview =
  display :: display
  innerHTML :: content
  parentNode :: bool

datatype target = Base64InputEl | Document | NodeCanvas | NodeElement

datatype handler =
    InputHandler | TextPasteHandler | PasteHandler
  | DragOverHandler | DragLeaveHandler | DropHandler

type_synonym listener = "target \<times> string \<times> handler"

datatype task = PreviewRecheck source

text \<open>
  The state holds the node's widgets by name, the fields of the handler object, the parts
  of the document the handler touches (the listeners attached to elements, whether the
  preview element has a parent), the timers and image probes that are pending, and the
  host state. \<open>passes\<close> is instrumentation: it counts the entries into
  \<open>clearOtherInputs\<close>. Redrawing the canvas (\<open>canvas.draw\<close>) reads the node and
  changes none of these fields.
\<close>

record ('h, 'r) controller =
  widgets :: "source \<Rightarrow> ('h, 'r) widget option"
  previewElement :: "preview option"
  eventListeners :: "listener list"
  attached :: "listener list"
  timers :: "(nat \<times> task) list"
  probes :: "string list"
  isDragging :: bool
  originalColors :: "(string option \<times> string option) option"
  bgcolor :: "string option"
  color :: "string option"
  imageLoaderPreview :: bool
  nodeElement :: "(string \<times> string) option"
  nodeCanvas :: bool
  onWidgetChanged :: "(string \<Rightarrow> 'h \<Rightarrow> 'h) option"
  host :: 'h
  passes :: nat

text \<open>\<open>findWidgets\<close>: the names each version looks up on the node.\<close>

fun findWidgets :: "variant \<Rightarrow> source list" where
  "findWidgets Full = [Upload, Filepath, Base64, Paste]"
| "findWidgets Reduced = [Upload, Filepath, Base64]"
| "findWidgets Basic = [Filepath, Base64, Paste]"

definition this_widgets ::
  "variant \<Rightarrow> ('h, 'r) controller \<Rightarrow> source \<Rightarrow> ('h, 'r) widget option" where
  "this_widgets var s n = (if n \<in> set (findWidgets var) then widgets s n else None)"

definition set_value :: "source \<Rightarrow> string \<Rightarrow> ('h, 'r) controller \<Rightarrow> ('h, 'r) controller" where
  "set_value n v s =
     s\<lparr>widgets := (widgets s)(n := map_option (\<lambda>w. w\<lparr>wvalue := v\<rparr>) (widgets s n))\<rparr>"

definition set_callback ::
  "source \<Rightarrow> ('h, 'r) callback \<Rightarrow> ('h, 'r) controller \<Rightarrow> ('h, 'r) controller" where
  "set_callback n cb s =
     s\<lparr>widgets := (widgets s)(n := map_option (\<lambda>w. w\<lparr>callback := cb\<rparr>) (widgets s n))\<rparr>"

subsection \<open>Preview\<close>

definition hidePreview :: "('h, 'r) controller \<Rightarrow> ('h, 'r) controller" where
  "hidePreview s =
     (case previewElement s of
        None \<Rightarrow> s
      | Some p \<Rightarrow> s\<lparr>previewElement := Some (p\<lparr>display := DisplayNone\<rparr>)\<rparr>)"

definition showPreview :: "content \<Rightarrow> ('h, 'r) controller \<Rightarrow> ('h, 'r) controller" where
  "showPreview c s =
     (case previewElement s of
        None \<Rightarrow> s
      | Some p \<Rightarrow> s\<lparr>previewElement := Some (p\<lparr>innerHTML := c, display := DisplayBlock\<rparr>)\<rparr>)"

text \<open>
  The placeholder shows the base name, \<open>fileName.split(/[\\/]/).pop() || fileName\<close>: the
  text after the last slash or backslash, or the whole name when that text is empty.
\<close>

definition baseName :: "string \<Rightarrow> string" where
  "baseName fileName =
     (let seg = rev (takeWhile (\<lambda>c. c \<noteq> CHR ''/'' \<and> c \<noteq> CHR 0x5C) (rev fileName))
      in if seg \<noteq> [] then seg else fileName)"

definition showPreviewPlaceholder :: "string \<Rightarrow> ('h, 'r) controller \<Rightarrow> ('h, 'r) controller" where
  "showPreviewPlaceholder fileName s = showPreview (Placeholder (baseName fileName)) s"

text \<open>
  \<open>loadImagePreview\<close> starts an image probe for the file; the probe answers later with
  \<open>img_onload\<close> or \<open>img_onerror\<close>.
\<close>

definition loadImagePreview :: "string \<Rightarrow> ('h, 'r) controller \<Rightarrow> ('h, 'r) controller" where
  "loadImagePreview filePath s = s\<lparr>probes := probes s @ [filePath]\<rparr>"

definition img_onload :: "string \<Rightarrow> ('h, 'r) controller \<Rightarrow> ('h, 'r) controller" where
  "img_onload filePath s = showPreview (ImgView filePath) s"

definition img_onerror :: "string \<Rightarrow> ('h, 'r) controller \<Rightarrow> ('h, 'r) controller" where
  "img_onerror filePath s = showPreviewPlaceholder filePath s"

definition data_url :: "string \<Rightarrow> string" where
  "data_url v = (if startsWith v ''data:'' then v else ''data:image/png;base64,'' @ v)"

definition updatePreview ::
  "variant \<Rightarrow> source \<Rightarrow> string \<Rightarrow> ('h, 'r) controller \<Rightarrow> ('h, 'r) controller" where
  "updatePreview var src v s =
     (if previewElement s = None then s
      else case var of
        Basic \<Rightarrow>
          (if src = Filepath then hidePreview s
           else let imageUrl = (if src = Base64 \<or> src = Paste then data_url v else [])
                in if imageUrl \<noteq> [] then showPreview (Img imageUrl) s else s)
      | _ \<Rightarrow>
          (if (src = Filepath \<or> src = Upload) \<and> nonblank v then loadImagePreview v s
           else let imageUrl =
                      (if src = Filepath \<or> src = Upload then []
                       else if src = Base64 \<or> (src = Paste \<and> var = Full) then data_url v
                       else [])
                in if imageUrl \<noteq> [] then showPreview (Img imageUrl) s else hidePreview s))"

subsection \<open>Base64 validation\<close>

text \<open>
  \<open>validateBase64Input\<close> returns \<open>true\<close>, \<open>false\<close>, or nothing at all (\<open>None\<close>) when a
  \<open>data:image/\<close> value has no second comma-separated segment or an empty one: that path
  leaves the \<open>try\<close> block without a \<open>return\<close> and without touching the preview.
\<close>

definition data_segment :: "string \<Rightarrow> string option" where
  "data_segment v = (case split CHR '','' v of _ # d # _ \<Rightarrow> Some d | _ \<Rightarrow> None)"

definition validateBase64Input ::
  "variant \<Rightarrow> string \<Rightarrow> ('h, 'r) controller \<Rightarrow> bool option \<times> ('h, 'r) controller" where
  "validateBase64Input var v s =
     (if startsWith v ''data:image/'' then
        (case data_segment v of
           Some d \<Rightarrow> if d \<noteq> [] then (Some True, updatePreview var Base64 v s) else (None, s)
         | None \<Rightarrow> (None, s))
      else if atob_ok (take 100 v)
        then (Some True, updatePreview var Base64 (''data:image/png;base64,'' @ v) s)
        else (Some False, hidePreview s))"

subsection \<open>Clearing pass and widget callbacks\<close>

text \<open>The \<open>clearingRules\<close> object; a missing key gives the empty list.\<close>

fun clearingRules :: "variant \<Rightarrow> source \<Rightarrow> source list" where
  "clearingRules Full Paste = [Upload, Filepath, Base64]"
| "clearingRules var Filepath = [Upload, Base64]"
| "clearingRules var Base64 = [Upload, Filepath]"
| "clearingRules var Upload = [Filepath, Base64]"
| "clearingRules var Paste = []"

text \<open>
  The \<open>Basic\<close> version walks the fixed list \<open>['filepath', 'base64', 'paste']\<close>, skips the
  active input and empties the rest, without calling anything.
\<close>

definition clearBasic :: "source \<Rightarrow> ('h, 'r) controller \<Rightarrow> ('h, 'r) controller" where
  "clearBasic a s =
     fold (\<lambda>input s.
             if input \<noteq> a then
               (case this_widgets Basic s input of
                  None \<Rightarrow> s
                | Some w \<Rightarrow> if wvalue w \<noteq> [] then set_value input [] s else s)
             else s)
          [Filepath, Base64, Paste] s"

definition schedule :: "nat \<Rightarrow> task \<Rightarrow> ('h, 'r) controller \<Rightarrow> ('h, 'r) controller" where
  "schedule delay t s = s\<lparr>timers := timers s @ [(delay, t)]\<rparr>"

text \<open>
  Calling a callback slot, the clearing pass and its \<open>forEach\<close> loop call one another:
  the wrapper runs the clearing pass, and the clearing pass calls the callback of each
  widget it empties. \<open>invoke\<close> on an empty slot stands for \<open>originalCallback?.call\<close>,
  which gives \<open>undefined\<close>.
\<close>

function
  invoke :: "variant \<Rightarrow> ('h, 'r) callback \<Rightarrow> string \<Rightarrow> ('h, 'r) controller
               \<Rightarrow> 'r option \<times> ('h, 'r) controller"
and
  clearOtherInputs :: "variant \<Rightarrow> source \<Rightarrow> ('h, 'r) controller \<Rightarrow> ('h, 'r) controller"
and
  clearEach :: "variant \<Rightarrow> source list \<Rightarrow> ('h, 'r) controller \<Rightarrow> ('h, 'r) controller"
where
  "invoke var Absent v s = (None, s)"
| "invoke var (Host f) v s = (Some (fst (f v (host s))), s\<lparr>host := snd (f v (host s))\<rparr>)"
| "invoke var (Wrapper src originalCallback) v s =
     invoke var originalCallback v
       (if nonblank v then updatePreview var src v (clearOtherInputs var src s) else s)"
| "clearOtherInputs var activeInput s =
     (case var of
        Basic \<Rightarrow>
          (let s1 = clearBasic activeInput (s\<lparr>passes := passes s + 1\<rparr>)
           in if activeInput \<noteq> Paste then hidePreview s1 else s1)
      | _ \<Rightarrow>
          (let s1 = hidePreview
                      (clearEach var (clearingRules var activeInput)
                         (s\<lparr>passes := passes s + 1\<rparr>))
           in if var = Full \<and> activeInput = Paste then s1
              else schedule 100 (PreviewRecheck activeInput) s1))"
| "clearEach var [] s = s"
| "clearEach var (inputName # rest) s =
     clearEach var rest
       (case this_widgets var s inputName of
          None \<Rightarrow> s
        | Some w \<Rightarrow>
            if wvalue w \<noteq> [] then
              (let s1 = set_value inputName [] s
               in if \<not> is_absent (callback w) then snd (invoke var (callback w) [] s1) else s1)
            else s)"
  by pat_completeness auto

termination
  by (relation "inv_image (less_than <*lex*> less_than)
        (\<lambda>x. case x of
           Inl (var, cb, v, s) \<Rightarrow> (if nonblank v then 2 else 0, size cb)
         | Inr (Inl (var, a, s)) \<Rightarrow> (1, Suc (length (clearingRules var a)))
         | Inr (Inr (var, ns, s)) \<Rightarrow> (1, length ns))")
     (auto simp: nonblank_def)

declare clearOtherInputs.simps [simp del]

subsection \<open>Handlers installed by \<open>setupEventListeners\<close>\<close>

text \<open>
  The wrapper is installed on the image widget (not in \<open>Basic\<close>, which never looks the
  image widget up) and on the filepath widget. The base64 widget gets an \<open>input\<close>
  listener on its input element, recorded for \<open>cleanup\<close>, and in \<open>Full\<close> and
  \<open>Basic\<close> a \<open>paste\<close> listener that is not recorded. The clipboard listener goes on the
  document (\<open>Full\<close>) or on the node's canvas and element (\<open>Basic\<close>).
\<close>

definition wrap :: "variant \<Rightarrow> source \<Rightarrow> ('h, 'r) controller \<Rightarrow> ('h, 'r) controller" where
  "wrap var n s =
     (case this_widgets var s n of
        None \<Rightarrow> s
      | Some w \<Rightarrow> set_callback n (Wrapper n (callback w)) s)"

definition addEventListener :: "listener \<Rightarrow> bool \<Rightarrow> ('h, 'r) controller \<Rightarrow> ('h, 'r) controller" where
  "addEventListener l recorded s =
     s\<lparr>attached := attached s @ [l],
       eventListeners := (if recorded then eventListeners s @ [l] else eventListeners s)\<rparr>"

definition has_widget :: "variant \<Rightarrow> ('h, 'r) controller \<Rightarrow> source \<Rightarrow> bool" where
  "has_widget var s n = (case this_widgets var s n of None \<Rightarrow> False | Some w \<Rightarrow> True)"

definition has_inputEl :: "variant \<Rightarrow> ('h, 'r) controller \<Rightarrow> source \<Rightarrow> bool" where
  "has_inputEl var s n = (case this_widgets var s n of None \<Rightarrow> False | Some w \<Rightarrow> inputEl w)"

definition setupEventListeners :: "variant \<Rightarrow> ('h, 'r) controller \<Rightarrow> ('h, 'r) controller" where
  "setupEventListeners var s =
     (let s1 = wrap var Filepath (wrap var Upload s);
          s2 = (if has_inputEl var s1 Base64 then
                  (let s' = addEventListener (Base64InputEl, ''input'', InputHandler) True s1
                   in if var = Reduced then s'
                      else addEventListener (Base64InputEl, ''paste'', TextPasteHandler) False s')
                else s1)
      in case var of
           Full \<Rightarrow> addEventListener (Document, ''paste'', PasteHandler) True s2
         | Reduced \<Rightarrow> s2
         | Basic \<Rightarrow>
             (let s3 = (if nodeCanvas s2
                        then addEventListener (NodeCanvas, ''paste'', PasteHandler) True s2
                        else s2)
              in if nodeElement s3 \<noteq> None
                 then addEventListener (NodeElement, ''paste'', PasteHandler) True s3
                 else s3))"

text \<open>
  \<open>setupPreview\<close> creates the preview element, hidden. \<open>Full\<close> and \<open>Reduced\<close> append it
  to the document body and keep a second reference on the node; \<open>Basic\<close> appends it to
  the node's element when there is one.
\<close>

definition setupPreview :: "variant \<Rightarrow> ('h, 'r) controller \<Rightarrow> ('h, 'r) controller" where
  "setupPreview var s =
     (if var = Basic then
        s\<lparr>previewElement :=
            Some \<lparr>display = DisplayNone, innerHTML = NoContent,
                  parentNode = (nodeElement s \<noteq> None)\<rparr>\<rparr>
      else
        s\<lparr>previewElement :=
            Some \<lparr>display = DisplayNone, innerHTML = NoContent, parentNode = True\<rparr>,
          imageLoaderPreview := True\<rparr>)"

text \<open>The \<open>input\<close> listener of the base64 field, applied to the field's text.\<close>

definition inputHandler :: "variant \<Rightarrow> string \<Rightarrow> ('h, 'r) controller \<Rightarrow> ('h, 'r) controller" where
  "inputHandler var v s =
     (if nonblank v then snd (validateBase64Input var v (clearOtherInputs var Base64 s)) else s)"

text \<open>
  \<open>reader.onload\<close> of \<open>processImageFile\<close>, applied to the data URL read from the pasted
  or dropped file. \<open>Reduced\<close> has no such handler.
\<close>

definition reader_onload :: "variant \<Rightarrow> string \<Rightarrow> ('h, 'r) controller \<Rightarrow> ('h, 'r) controller" where
  "reader_onload var dataUrl s =
     (if var = Reduced then s
      else case this_widgets var s Paste of
        None \<Rightarrow> s
      | Some w \<Rightarrow>
          (let s1 = set_value Paste dataUrl s;
               s2 = clearOtherInputs var Paste s1;
               s3 = updatePreview var Paste dataUrl s2
           in case onWidgetChanged s3 of
                None \<Rightarrow> s3
              | Some f \<Rightarrow> s3\<lparr>host := f dataUrl (host s3)\<rparr>))"

text \<open>The callback that the clearing pass hands to \<open>setTimeout\<close>, run when the timer fires.\<close>

definition truthy_value :: "variant \<Rightarrow> ('h, 'r) controller \<Rightarrow> source \<Rightarrow> string option" where
  "truthy_value var s n =
     (case this_widgets var s n of
        None \<Rightarrow> None
      | Some w \<Rightarrow> if wvalue w \<noteq> [] then Some (wvalue w) else None)"

fun fire :: "variant \<Rightarrow> task \<Rightarrow> ('h, 'r) controller \<Rightarrow> ('h, 'r) controller" where
  "fire var (PreviewRecheck activeInput) s =
     (if activeInput = Paste then s
      else case truthy_value var s activeInput of
        None \<Rightarrow> s
      | Some v \<Rightarrow> updatePreview var activeInput v s)"

subsection \<open>Drag state and cleanup\<close>

definition setDragState :: "variant \<Rightarrow> bool \<Rightarrow> ('h, 'r) controller \<Rightarrow> ('h, 'r) controller" where
  "setDragState var dragging s =
     (case var of
        Basic \<Rightarrow>
          (let s1 = s\<lparr>isDragging := dragging\<rparr>
           in case nodeElement s1 of
                None \<Rightarrow> s1
              | Some style \<Rightarrow>
                  if dragging
                  then s1\<lparr>nodeElement := Some (''2px dashed #4CAF50'', ''rgba(76, 175, 80, 0.1)'')\<rparr>
                  else s1\<lparr>nodeElement := Some ([], [])\<rparr>)
      | _ \<Rightarrow>
          (let s1 = s\<lparr>isDragging := dragging\<rparr>
           in if dragging
              then s1\<lparr>originalColors := Some (bgcolor s1, color s1),
                      bgcolor := Some ''rgba(76, 175, 80, 0.2)'',
                      color := Some ''#4CAF50''\<rparr>
              else case originalColors s1 of
                     None \<Rightarrow> s1
                   | Some (bg, fg) \<Rightarrow> s1\<lparr>bgcolor := bg, color := fg, originalColors := None\<rparr>))"

text \<open>
  \<open>removeEventListener\<close> detaches the listener when it is attached and does nothing
  otherwise. \<open>removeChild\<close> throws when the element is not a child of the node it is
  called on; \<open>cleanup\<close> calls it on the element's own parent, under the guard
  \<open>this.previewElement?.parentNode\<close>.
\<close>

datatype dom_error = NotFoundError

definition removeEventListener :: "listener list \<Rightarrow> listener \<Rightarrow> listener list" where
  "removeEventListener ls l = remove1 l ls"

definition removeChild :: "preview \<Rightarrow> dom_error + preview" where
  "removeChild p = (if parentNode p then Inr (p\<lparr>parentNode := False\<rparr>) else Inl NotFoundError)"

definition cleanup :: "variant \<Rightarrow> ('h, 'r) controller \<Rightarrow> dom_error + ('h, 'r) controller" where
  "cleanup var s =
     (let s1 = s\<lparr>attached := foldl removeEventListener (attached s) (eventListeners s),
                 eventListeners := []\<rparr>;
          r2 = (case previewElement s1 of
                  None \<Rightarrow> Inr s1
                | Some p \<Rightarrow>
                    if parentNode p
                    then (case removeChild p of
                            Inl e \<Rightarrow> Inl e
                          | Inr p' \<Rightarrow> Inr (s1\<lparr>previewElement := Some p'\<rparr>))
                    else Inr s1)
      in case r2 of
           Inl e \<Rightarrow> Inl e
         | Inr s2 \<Rightarrow>
             (let s3 = (if var = Reduced then s2 else setDragState var False s2)
              in if var = Basic then Inr s3
                 else if imageLoaderPreview s3 then Inr (s3\<lparr>imageLoaderPreview := False\<rparr>)
                 else Inr s3))"

subsection \<open>Activations\<close>

text \<open>
  An activation is what the host does when the user supplies a value: for the image and
  filepath widgets it stores the value and calls the widget's callback; for the base64
  field the text is in the widget and the \<open>input\<close> event reaches the listener if it is
  attached (without the listener the text stays in the widget and nothing else happens);
  for a pasted or dropped image the file reader delivers the data URL.
\<close>

definition activate ::
  "variant \<Rightarrow> source \<times> string \<Rightarrow> ('h, 'r) controller \<Rightarrow> ('h, 'r) controller" where
  "activate var av s =
     (case av of
        (Paste, v) \<Rightarrow> reader_onload var v s
      | (Base64, v) \<Rightarrow>
          (case widgets s Base64 of
             None \<Rightarrow> s
           | Some w \<Rightarrow>
               if (Base64InputEl, ''input'', InputHandler) \<in> set (attached s)
               then inputHandler var v (set_value Base64 v s)
               else set_value Base64 v s)
      | (n, v) \<Rightarrow>
          (case widgets s n of
             None \<Rightarrow> s
           | Some w \<Rightarrow> snd (invoke var (callback w) v (set_value n v s))))"

definition run ::
  "variant \<Rightarrow> (source \<times> string) list \<Rightarrow> ('h, 'r) controller \<Rightarrow> ('h, 'r) controller" where
  "run var acts s = foldl (\<lambda>s av. activate var av s) s acts"

text \<open>
  \<open>initialize\<close>: \<open>findWidgets\<close> is \<^const>\<open>this_widgets\<close>, \<open>setupWidgets\<close> only styles
  input elements. \<open>setupDragAndDrop\<close> attaches three recorded listeners in \<open>Basic\<close>
  (to the node's element, or else its canvas); in \<open>Full\<close> it replaces three handler
  properties of the node, which this state does not hold.
\<close>

definition setupDragAndDrop :: "variant \<Rightarrow> ('h, 'r) controller \<Rightarrow> ('h, 'r) controller" where
  "setupDragAndDrop var s =
     (if var = Basic \<and> (nodeElement s \<noteq> None \<or> nodeCanvas s) then
        (let el = (if nodeElement s \<noteq> None then NodeElement else NodeCanvas)
         in addEventListener (el, ''drop'', DropHandler) True
              (addEventListener (el, ''dragleave'', DragLeaveHandler) True
                 (addEventListener (el, ''dragover'', DragOverHandler) True s)))
      else s)"

definition initialize :: "variant \<Rightarrow> ('h, 'r) controller \<Rightarrow> ('h, 'r) controller" where
  "initialize var s = setupPreview var (setupDragAndDrop var (setupEventListeners var s))"

section \<open>Notions used to state the properties\<close>

definition value_of :: "('h, 'r) controller \<Rightarrow> source \<Rightarrow> string option" where
  "value_of s n = map_option wvalue (widgets s n)"

definition nonempty :: "('h, 'r) controller \<Rightarrow> source \<Rightarrow> bool" where
  "nonempty s n = (case widgets s n of None \<Rightarrow> False | Some w \<Rightarrow> wvalue w \<noteq> [])"

definition at_most_one :: "source list \<Rightarrow> ('h, 'r) controller \<Rightarrow> bool" where
  "at_most_one ns s = (length (filter (nonempty s) ns) \<le> 1)"

definition preview_hidden :: "('h, 'r) controller \<Rightarrow> bool" where
  "preview_hidden s =
     (case previewElement s of None \<Rightarrow> True | Some p \<Rightarrow> display p = DisplayNone)"

text \<open>
  What a chain of wrappers does to the host state, and what it returns, when every
  wrapper only forwards: the innermost host function is applied once.
\<close>

fun forward :: "('h, 'r) callback \<Rightarrow> string \<Rightarrow> 'h \<Rightarrow> 'h" where
  "forward Absent v h = h"
| "forward (Host f) v h = snd (f v h)"
| "forward (Wrapper src originalCallback) v h = forward originalCallback v h"

fun forward_result :: "('h, 'r) callback \<Rightarrow> string \<Rightarrow> 'h \<Rightarrow> 'r option" where
  "forward_result Absent v h = None"
| "forward_result (Host f) v h = Some (fst (f v h))"
| "forward_result (Wrapper src originalCallback) v h = forward_result originalCallback v h"

fun host_only :: "('h, 'r) callback \<Rightarrow> bool" where
  "host_only (Wrapper src originalCallback) = False"
| "host_only cb = True"

text \<open>
  A state is wired when the image and filepath widgets, where present, carry the wrapper
  for their own name around a callback of the host, as \<open>setupEventListeners\<close> leaves
  them on a fresh node.
\<close>

definition installed :: "source \<Rightarrow> ('h, 'r) callback \<Rightarrow> bool" where
  "installed n cb =
     (case cb of Wrapper m originalCallback \<Rightarrow> m = n \<and> host_only originalCallback
      | _ \<Rightarrow> False)"

definition wired :: "('h, 'r) controller \<Rightarrow> bool" where
  "wired s =
     ((case widgets s Upload of None \<Rightarrow> True | Some w \<Rightarrow> installed Upload (callback w)) \<and>
      (case widgets s Filepath of None \<Rightarrow> True | Some w \<Rightarrow> installed Filepath (callback w)))"

text \<open>
  A state is listening when the base64 widget is absent or the \<open>input\<close> listener of its
  field is attached, so that text typed into the field reaches \<open>inputHandler\<close>.
\<close>

definition listening :: "('h, 'r) controller \<Rightarrow> bool" where
  "listening s =
     (case widgets s Base64 of
        None \<Rightarrow> True
      | Some w \<Rightarrow> (Base64InputEl, ''input'', InputHandler) \<in> set (attached s))"

text \<open>One round of the \<open>forEach\<close> loop of the clearing pass.\<close>

definition clear_one :: "variant \<Rightarrow> source \<Rightarrow> ('h, 'r) controller \<Rightarrow> ('h, 'r) controller" where
  "clear_one var n s =
     (case this_widgets var s n of
        None \<Rightarrow> s
      | Some w \<Rightarrow>
          if wvalue w \<noteq> [] then
            (let s1 = set_value n [] s
             in if \<not> is_absent (callback w) then snd (invoke var (callback w) [] s1) else s1)
          else s)"

text \<open>
  The widgets after the listed inputs were emptied, and the host state after the
  callback of each listed widget that held a value was called with the empty string.
\<close>

definition cleared_widgets ::
  "variant \<Rightarrow> source list \<Rightarrow> (source \<Rightarrow> ('h, 'r) widget option)
     \<Rightarrow> source \<Rightarrow> ('h, 'r) widget option" where
  "cleared_widgets var ns ws n =
     (if n \<in> set ns \<and> n \<in> set (findWidgets var)
      then map_option (\<lambda>w. w\<lparr>wvalue := []\<rparr>) (ws n) else ws n)"

definition synthetic_calls ::
  "variant \<Rightarrow> ('h, 'r) controller \<Rightarrow> source list \<Rightarrow> 'h \<Rightarrow> 'h" where
  "synthetic_calls var s ns h =
     foldl (\<lambda>h n. case this_widgets var s n of
                     None \<Rightarrow> h
                   | Some w \<Rightarrow> if wvalue w \<noteq> [] then forward (callback w) [] h else h)
           h ns"

text \<open>The inputs that each version empties when \<open>a\<close> is activated.\<close>

definition cleared_by :: "variant \<Rightarrow> source \<Rightarrow> source list" where
  "cleared_by var a =
     (if var = Basic then filter (\<lambda>n. n \<noteq> a) [Filepath, Base64, Paste]
      else clearingRules var a)"

subsection \<open>The precedence tables and the acceptance rule as the specification words them\<close>

datatype policy = FullPolicy | ReducedPolicy

fun spec_clears :: "policy \<Rightarrow> source \<Rightarrow> source set" where
  "spec_clears FullPolicy Paste = {Upload, Filepath, Base64}"
| "spec_clears ReducedPolicy Paste = {}"
| "spec_clears pol Filepath = {Upload, Base64}"
| "spec_clears pol Base64 = {Upload, Filepath}"
| "spec_clears pol Upload = {Filepath, Base64}"

definition payload_after_first_comma :: "string \<Rightarrow> string" where
  "payload_after_first_comma v = drop 1 (dropWhile (\<lambda>c. c \<noteq> CHR '','') v)"

definition spec_accepts :: "string \<Rightarrow> bool" where
  "spec_accepts v =
     ((startsWith v ''data:image/'' \<and> payload_after_first_comma v \<noteq> [])
      \<or> atob_ok (take 100 v))"

subsection \<open>A node whose host callbacks log their calls\<close>

definition widget_name :: "source \<Rightarrow> string" where
  "widget_name n =
     (case n of Upload \<Rightarrow> ''image'' | Filepath \<Rightarrow> ''filepath'' | Base64 \<Rightarrow> ''base64''
      | Paste \<Rightarrow> ''pasted_base64'')"

definition log_callback :: "source \<Rightarrow> ((string \<times> string) list, unit) callback" where
  "log_callback n = Host (\<lambda>v h. ((), h @ [(widget_name n, v)]))"

definition fresh_node :: "((string \<times> string) list, unit) controller" where
  "fresh_node =
     \<lparr>widgets = (\<lambda>n. Some \<lparr>wvalue = [], callback = log_callback n, inputEl = (n \<noteq> Upload)\<rparr>),
      previewElement = None,
      eventListeners = [],
      attached = [],
      timers = [],
      probes = [],
      isDragging = False,
      originalColors = None,
      bgcolor = None,
      color = None,
      imageLoaderPreview = False,
      nodeElement = Some ([], []),
      nodeCanvas = True,
      onWidgetChanged = None,
      host = [],
      passes = 0\<rparr>"

definition demo :: "variant \<Rightarrow> ((string \<times> string) list, unit) controller" where
  "demo var = initialize var fresh_node"

section \<open>Auxiliary facts\<close>

lemma nonblank_Nil [simp]: "\<not> nonblank []"
  by (simp add: nonblank_def)

lemma invoke_blank:
  "\<not> nonblank v \<Longrightarrow>
   invoke var cb v s = (forward_result cb v (host s), s\<lparr>host := forward cb v (host s)\<rparr>)"
  by (induction cb) simp_all

lemma invoke_host_only:
  "host_only cb \<Longrightarrow>
   invoke var cb v s = (forward_result cb v (host s), s\<lparr>host := forward cb v (host s)\<rparr>)"
  by (cases cb) simp_all

lemma clear_one_eq:
  "clear_one var n s =
     s\<lparr>widgets := cleared_widgets var [n] (widgets s),
       host := synthetic_calls var s [n] (host s)\<rparr>"
proof (cases "this_widgets var s n")
  case None
  then have "cleared_widgets var [n] (widgets s) = widgets s"
    by (auto simp: cleared_widgets_def this_widgets_def fun_eq_iff split: if_splits)
  with None show ?thesis
    by (simp add: clear_one_def synthetic_calls_def)
next
  case (Some w)
  then have found: "n \<in> set (findWidgets var)" and w: "widgets s n = Some w"
    by (auto simp: this_widgets_def split: if_splits)
  show ?thesis
  proof (cases "wvalue w = []")
    case True
    with found w have "cleared_widgets var [n] (widgets s) = widgets s"
      by (auto simp: cleared_widgets_def fun_eq_iff)
    with Some True show ?thesis
      by (simp add: clear_one_def synthetic_calls_def)
  next
    case False
    from found w have "cleared_widgets var [n] (widgets s) = widgets (set_value n [] s)"
      by (auto simp: cleared_widgets_def set_value_def fun_eq_iff)
    with Some False show ?thesis
      by (cases "callback w")
         (simp_all add: clear_one_def synthetic_calls_def invoke_blank set_value_def Let_def)
  qed
qed

lemma synthetic_calls_cong:
  "(\<And>m. m \<in> set ns \<Longrightarrow> this_widgets var s' m = this_widgets var s m) \<Longrightarrow>
   synthetic_calls var s' ns h = synthetic_calls var s ns h"
  unfolding synthetic_calls_def
  by (induction ns arbitrary: h) simp_all

lemma cleared_widgets_Nil [simp]: "cleared_widgets var [] ws = ws"
  by (simp add: cleared_widgets_def fun_eq_iff)

lemma cleared_widgets_Cons:
  "cleared_widgets var ns (cleared_widgets var [n] ws) = cleared_widgets var (n # ns) ws"
  by (auto simp: cleared_widgets_def fun_eq_iff option.map_comp o_def)

lemma clearEach_eq:
  "distinct ns \<Longrightarrow>
   clearEach var ns s =
     s\<lparr>widgets := cleared_widgets var ns (widgets s),
       host := synthetic_calls var s ns (host s)\<rparr>"
proof (induction ns arbitrary: s)
  case Nil
  show ?case by (simp add: cleared_widgets_def synthetic_calls_def)
next
  case (Cons n ns)
  let ?s' = "clear_one var n s"
  have step: "clearEach var (n # ns) s = clearEach var ns ?s'"
    by (simp add: clear_one_def)
  have same: "this_widgets var ?s' m = this_widgets var s m" if "m \<in> set ns" for m
  proof -
    from that Cons.prems have "m \<noteq> n" by auto
    then show ?thesis
      by (simp add: clear_one_eq this_widgets_def cleared_widgets_def)
  qed
  have calls: "synthetic_calls var ?s' ns (host ?s') = synthetic_calls var s (n # ns) (host s)"
  proof -
    have "synthetic_calls var ?s' ns (host ?s') = synthetic_calls var s ns (host ?s')"
      by (rule synthetic_calls_cong) (rule same)
    also have "\<dots> = synthetic_calls var s ns (synthetic_calls var s [n] (host s))"
      by (simp add: clear_one_eq)
    also have "\<dots> = synthetic_calls var s (n # ns) (host s)"
      by (simp add: synthetic_calls_def)
    finally show ?thesis .
  qed
  from Cons.prems have "distinct ns" by simp
  then have "clearEach var ns ?s' =
      ?s'\<lparr>widgets := cleared_widgets var ns (widgets ?s'),
          host := synthetic_calls var ?s' ns (host ?s')\<rparr>"
    by (rule Cons.IH)
  also have "\<dots> = s\<lparr>widgets := cleared_widgets var (n # ns) (widgets s),
                    host := synthetic_calls var s (n # ns) (host s)\<rparr>"
    unfolding calls by (simp add: clear_one_eq cleared_widgets_Cons)
  finally show ?case using step by simp
qed

lemma clearingRules_distinct: "distinct (clearingRules var a)"
  by (cases var; cases a) simp_all

lemma hidePreview_eq:
  "hidePreview s =
     s\<lparr>previewElement := map_option (\<lambda>p. p\<lparr>display := DisplayNone\<rparr>) (previewElement s)\<rparr>"
  by (simp add: hidePreview_def split: option.splits)

lemma basic_one_eq:
  "(case this_widgets Basic s n of
      None \<Rightarrow> s
    | Some w \<Rightarrow> if wvalue w \<noteq> [] then set_value n [] s else s)
   = s\<lparr>widgets := cleared_widgets Basic [n] (widgets s)\<rparr>"
proof -
  have "cleared_widgets Basic [n] (widgets s) = widgets s"
    if "this_widgets Basic s n = None \<or> (\<exists>w. this_widgets Basic s n = Some w \<and> wvalue w = [])"
    using that by (auto simp: cleared_widgets_def this_widgets_def fun_eq_iff split: if_splits)
  moreover have "cleared_widgets Basic [n] (widgets s) = widgets (set_value n [] s)"
    if "this_widgets Basic s n = Some w" for w
    using that by (auto simp: cleared_widgets_def this_widgets_def set_value_def fun_eq_iff split: if_splits)
  ultimately show ?thesis
    by (auto split: option.splits simp: set_value_def)
qed

lemma clearBasic_eq:
  "clearBasic a s =
     s\<lparr>widgets := cleared_widgets Basic (filter (\<lambda>n. n \<noteq> a) [Filepath, Base64, Paste]) (widgets s)\<rparr>"
proof -
  have one: "(if n \<noteq> a then
               (case this_widgets Basic t n of
                  None \<Rightarrow> t
                | Some w \<Rightarrow> if wvalue w \<noteq> [] then set_value n [] t else t)
             else t)
           = t\<lparr>widgets := cleared_widgets Basic (filter (\<lambda>n. n \<noteq> a) [n]) (widgets t)\<rparr>"
    for n and t :: "('a, 'b) controller"
    by (cases "n = a") (simp_all add: basic_one_eq)
  show ?thesis
    unfolding clearBasic_def fold_simps one
    by (simp add: cleared_widgets_def fun_eq_iff option.map_comp o_def)
qed


lemma synthetic_calls_passes [simp]:
  "synthetic_calls var (s\<lparr>passes := k\<rparr>) ns h = synthetic_calls var s ns h"
  by (rule synthetic_calls_cong) (simp add: this_widgets_def)

lemma clearOtherInputs_eq:
  "clearOtherInputs var a s =
     (let s1 = s\<lparr>passes := passes s + 1,
                 widgets := cleared_widgets var (cleared_by var a) (widgets s),
                 host := (if var = Basic then host s
                          else synthetic_calls var s (clearingRules var a) (host s))\<rparr>;
          s2 = (if var = Basic \<and> a = Paste then s1 else hidePreview s1)
      in if var = Basic \<or> (var = Full \<and> a = Paste) then s2
         else schedule 100 (PreviewRecheck a) s2)"
proof (cases var)
  case Basic
  then show ?thesis
    by (simp add: clearOtherInputs.simps clearBasic_eq cleared_by_def Let_def)
next
  case Full
  then show ?thesis
    by (simp add: clearOtherInputs.simps clearEach_eq clearingRules_distinct cleared_by_def
          Let_def)
next
  case Reduced
  then show ?thesis
    by (simp add: clearOtherInputs.simps clearEach_eq clearingRules_distinct cleared_by_def
          Let_def)
qed

lemma widgets_clearOtherInputs:
  "widgets (clearOtherInputs var a s) = cleared_widgets var (cleared_by var a) (widgets s)"
  by (simp add: clearOtherInputs_eq Let_def hidePreview_eq schedule_def)

lemma host_clearOtherInputs:
  "host (clearOtherInputs var a s) =
     (if var = Basic then host s else synthetic_calls var s (clearingRules var a) (host s))"
  by (simp add: clearOtherInputs_eq Let_def hidePreview_eq schedule_def)

lemma passes_clearOtherInputs: "passes (clearOtherInputs var a s) = passes s + 1"
  by (simp add: clearOtherInputs_eq Let_def hidePreview_eq schedule_def)

lemma timers_clearOtherInputs:
  "timers (clearOtherInputs var a s) =
     (if var = Basic \<or> (var = Full \<and> a = Paste) then timers s
      else timers s @ [(100, PreviewRecheck a)])"
  by (simp add: clearOtherInputs_eq Let_def hidePreview_eq schedule_def)

lemma probes_clearOtherInputs: "probes (clearOtherInputs var a s) = probes s"
  by (simp add: clearOtherInputs_eq Let_def hidePreview_eq schedule_def)

lemma previewElement_clearOtherInputs:
  "previewElement (clearOtherInputs var a s) =
     (if var = Basic \<and> a = Paste then previewElement s
      else map_option (\<lambda>p. p\<lparr>display := DisplayNone\<rparr>) (previewElement s))"
  by (simp add: clearOtherInputs_eq Let_def hidePreview_eq schedule_def)

lemma hidePreview_clearOtherInputs:
  "a \<noteq> Paste \<Longrightarrow> hidePreview (clearOtherInputs var a s) = clearOtherInputs var a s"
  by (simp add: clearOtherInputs_eq Let_def hidePreview_eq schedule_def option.map_comp o_def)

lemma value_of_cleared:
  "map_option wvalue (cleared_widgets var ns ws n) =
     (if n \<in> set ns \<and> n \<in> set (findWidgets var)
      then map_option (\<lambda>_. []) (map_option wvalue (ws n)) else map_option wvalue (ws n))"
  by (simp add: cleared_widgets_def option.map_comp o_def)

lemma callback_cleared [simp]:
  "map_option callback (cleared_widgets var ns ws n) = map_option callback (ws n)"
  by (simp add: cleared_widgets_def option.map_comp o_def)


lemma widgets_updatePreview [simp]: "widgets (updatePreview var src v s) = widgets s"
  by (simp add: updatePreview_def hidePreview_eq showPreview_def loadImagePreview_def Let_def
        split: option.splits variant.splits)

lemma host_updatePreview [simp]: "host (updatePreview var src v s) = host s"
  by (simp add: updatePreview_def hidePreview_eq showPreview_def loadImagePreview_def Let_def
        split: option.splits variant.splits)

lemma passes_updatePreview [simp]: "passes (updatePreview var src v s) = passes s"
  by (simp add: updatePreview_def hidePreview_eq showPreview_def loadImagePreview_def Let_def
        split: option.splits variant.splits)

lemma widgets_validateBase64Input [simp]:
  "widgets (snd (validateBase64Input var v s)) = widgets s"
  by (simp add: validateBase64Input_def hidePreview_eq split: option.splits)

lemma passes_validateBase64Input [simp]:
  "passes (snd (validateBase64Input var v s)) = passes s"
  by (simp add: validateBase64Input_def hidePreview_eq split: option.splits)

lemma widgets_addEventListener [simp]: "widgets (addEventListener l r s) = widgets s"
  by (simp add: addEventListener_def)

lemma widgets_setupEventListeners:
  "widgets (setupEventListeners var s) = widgets (wrap var Filepath (wrap var Upload s))"
  by (cases var) (simp_all add: setupEventListeners_def Let_def)

lemma callback_wrap:
  "map_option callback (widgets (wrap var m s) n) =
     (if n = m \<and> m \<in> set (findWidgets var)
      then map_option (\<lambda>w. Wrapper m (callback w)) (widgets s n)
      else map_option callback (widgets s n))"
  by (auto simp: wrap_def this_widgets_def set_callback_def split: option.splits)

lemma widgets_wrap_other: "n \<noteq> m \<Longrightarrow> widgets (wrap var m s) n = widgets s n"
  by (simp add: wrap_def set_callback_def split: option.splits)

lemma at_most_one_cleared:
  assumes "var \<noteq> Basic" and "a \<noteq> Paste \<or> var = Full"
    and "widgets t = cleared_widgets var (cleared_by var a) ws"
  shows "at_most_one [Upload, Filepath, Base64] t"
  using assms
  by (cases var; cases a)
     (auto simp: at_most_one_def nonempty_def cleared_widgets_def cleared_by_def
           split: option.splits)

lemma wired_cong:
  "(\<And>n. map_option callback (widgets t n) = map_option callback (widgets s n)) \<Longrightarrow>
   wired t = wired s"
proof -
  assume same: "\<And>n. map_option callback (widgets t n) = map_option callback (widgets s n)"
  have "(case widgets t n of None \<Rightarrow> True | Some w \<Rightarrow> installed n (callback w)) =
        (case widgets s n of None \<Rightarrow> True | Some w \<Rightarrow> installed n (callback w))" for n
    using same [of n] by (cases "widgets t n"; cases "widgets s n") auto
  then show ?thesis by (simp add: wired_def)
qed

lemma at_most_one_cong:
  "widgets t = widgets s \<Longrightarrow> at_most_one ns t = at_most_one ns s"
proof -
  assume "widgets t = widgets s"
  then have "nonempty t = nonempty s" by (simp add: nonempty_def fun_eq_iff)
  then show ?thesis by (simp add: at_most_one_def)
qed

lemma callback_set_value [simp]:
  "map_option callback (widgets (set_value n v s) m) = map_option callback (widgets s m)"
  by (simp add: set_value_def option.map_comp o_def)

lemma attached_clearOtherInputs: "attached (clearOtherInputs var a s) = attached s"
  by (simp add: clearOtherInputs_eq Let_def hidePreview_eq schedule_def)

lemma attached_updatePreview: "attached (updatePreview var src v s) = attached s"
  by (simp add: updatePreview_def hidePreview_eq showPreview_def loadImagePreview_def Let_def
        split: option.splits variant.splits)

lemma attached_validateBase64Input:
  "attached (snd (validateBase64Input var v s)) = attached s"
  by (simp add: validateBase64Input_def hidePreview_eq attached_updatePreview
        split: option.splits)

lemma attached_set_value: "attached (set_value n v s) = attached s"
  by (simp add: set_value_def)

lemma widgets_activate:
  assumes "var \<noteq> Basic" and "wired s" and "listening s" and "nonblank v"
  shows "widgets (activate var (a, v) s) = widgets s
         \<or> ((a \<noteq> Paste \<or> var = Full)
            \<and> widgets (activate var (a, v) s) =
                cleared_widgets var (cleared_by var a) (widgets (set_value a v s)))"
proof (cases a)
  case Paste
  with assms(1) show ?thesis
    by (cases var)
       (auto simp: activate_def reader_onload_def widgets_clearOtherInputs Let_def
          split: option.splits)
next
  case Base64
  show ?thesis
  proof (cases "widgets s Base64")
    case None
    with Base64 show ?thesis by (simp add: activate_def)
  next
    case (Some w)
    with assms(3) have "(Base64InputEl, ''input'', InputHandler) \<in> set (attached s)"
      by (simp add: listening_def)
    with Some assms(4) Base64 show ?thesis
      by (simp add: activate_def inputHandler_def widgets_clearOtherInputs)
  qed
next
  case Upload
  show ?thesis
  proof (cases "widgets s Upload")
    case None
    with Upload show ?thesis by (simp add: activate_def)
  next
    case (Some w)
    with assms(2) obtain orig where cb: "callback w = Wrapper Upload orig" and ho: "host_only orig"
      by (auto simp: wired_def installed_def split: callback.splits)
    from Some cb ho assms(4) Upload show ?thesis
      by (simp add: activate_def invoke_host_only widgets_clearOtherInputs)
  qed
next
  case Filepath
  show ?thesis
  proof (cases "widgets s Filepath")
    case None
    with Filepath show ?thesis by (simp add: activate_def)
  next
    case (Some w)
    with assms(2) obtain orig where cb: "callback w = Wrapper Filepath orig" and ho: "host_only orig"
      by (auto simp: wired_def installed_def split: callback.splits)
    from Some cb ho assms(4) Filepath show ?thesis
      by (simp add: activate_def invoke_host_only widgets_clearOtherInputs)
  qed
qed

lemma attached_activate:
  assumes "wired s"
  shows "attached (activate var (a, v) s) = attached s"
proof (cases a)
  case Paste
  then show ?thesis
    by (simp add: activate_def reader_onload_def attached_updatePreview
          attached_clearOtherInputs attached_set_value Let_def split: option.splits)
next
  case Base64
  then show ?thesis
    by (simp add: activate_def inputHandler_def attached_validateBase64Input
          attached_clearOtherInputs attached_set_value split: option.splits)
next
  case Upload
  show ?thesis
  proof (cases "widgets s Upload")
    case None
    with Upload show ?thesis by (simp add: activate_def)
  next
    case (Some w)
    with assms obtain orig where cb: "callback w = Wrapper Upload orig" and ho: "host_only orig"
      by (auto simp: wired_def installed_def split: callback.splits)
    from Some cb ho Upload show ?thesis
      by (simp add: activate_def invoke_host_only attached_updatePreview
            attached_clearOtherInputs attached_set_value)
  qed
next
  case Filepath
  show ?thesis
  proof (cases "widgets s Filepath")
    case None
    with Filepath show ?thesis by (simp add: activate_def)
  next
    case (Some w)
    with assms obtain orig where cb: "callback w = Wrapper Filepath orig" and ho: "host_only orig"
      by (auto simp: wired_def installed_def split: callback.splits)
    from Some cb ho Filepath show ?thesis
      by (simp add: activate_def invoke_host_only attached_updatePreview
            attached_clearOtherInputs attached_set_value)
  qed
qed

lemma listening_cong:
  assumes "attached t = attached s"
    and "map_option callback (widgets t Base64) = map_option callback (widgets s Base64)"
  shows "listening t = listening s"
  using assms by (cases "widgets t Base64"; cases "widgets s Base64") (auto simp: listening_def)

lemma activate_keeps:
  assumes "var \<noteq> Basic" and "wired s" and "listening s" and "nonblank v"
    and "at_most_one [Upload, Filepath, Base64] s"
  shows "at_most_one [Upload, Filepath, Base64] (activate var (a, v) s)
         \<and> wired (activate var (a, v) s) \<and> listening (activate var (a, v) s)"
proof -
  have att: "attached (activate var (a, v) s) = attached s"
    using assms(2) by (rule attached_activate)
  from widgets_activate [OF assms(1-4), of a]
  consider (same) "widgets (activate var (a, v) s) = widgets s"
    | (cleared) "a \<noteq> Paste \<or> var = Full"
        "widgets (activate var (a, v) s) =
           cleared_widgets var (cleared_by var a) (widgets (set_value a v s))"
    by blast
  then show ?thesis
  proof cases
    case same
    have "listening (activate var (a, v) s) = listening s"
      by (rule listening_cong) (simp_all add: att same)
    with assms(2,3,5) show ?thesis
      by (simp add: at_most_one_cong [OF same] wired_cong [of "activate var (a, v) s" s] same)
  next
    case cleared
    have "wired (activate var (a, v) s) = wired s"
      by (rule wired_cong) (simp add: cleared(2))
    moreover have "listening (activate var (a, v) s) = listening s"
      by (rule listening_cong) (simp_all add: att cleared(2))
    ultimately show ?thesis
      using assms(1,2,3) cleared by (simp add: at_most_one_cleared)
  qed
qed

lemma run_keeps_one_source:
  "var \<noteq> Basic \<and> wired s \<and> listening s \<and> list_all (\<lambda>av. nonblank (snd av)) acts
     \<and> at_most_one [Upload, Filepath, Base64] s
   \<longrightarrow> at_most_one [Upload, Filepath, Base64] (run var acts s)"
proof (induction acts arbitrary: s)
  case Nil
  show ?case by (simp add: run_def)
next
  case (Cons av acts)
  obtain a v where av: "av = (a, v)" by (cases av)
  show ?case
  proof (intro impI, elim conjE)
    assume h: "var \<noteq> Basic" "wired s" "listening s"
      "list_all (\<lambda>av. nonblank (snd av)) (av # acts)"
      "at_most_one [Upload, Filepath, Base64] s"
    with av have "nonblank v" by simp
    from activate_keeps [OF h(1,2,3) this h(5), of a]
    have "at_most_one [Upload, Filepath, Base64] (activate var av s)"
      and "wired (activate var av s)" and "listening (activate var av s)"
      by (simp_all add: av)
    with h Cons.IH [of "activate var av s"]
    have "at_most_one [Upload, Filepath, Base64] (run var acts (activate var av s))"
      by simp
    then show "at_most_one [Upload, Filepath, Base64] (run var (av # acts) s)"
      by (simp add: run_def)
  qed
qed

lemma split_hd:
  "split sep v =
     takeWhile (\<lambda>c. c \<noteq> sep) v #
       (case dropWhile (\<lambda>c. c \<noteq> sep) v of [] \<Rightarrow> [] | _ # r \<Rightarrow> split sep r)"
proof (induction v)
  case Nil
  show ?case by simp
next
  case (Cons c cs)
  show ?case
  proof (cases "c = sep")
    case True
    then show ?thesis by simp
  next
    case False
    then show ?thesis by (simp add: Cons.IH)
  qed
qed


lemma data_segment_eq:
  "data_segment v =
     (case dropWhile (\<lambda>c. c \<noteq> CHR '','') v of
        [] \<Rightarrow> None
      | _ # r \<Rightarrow> Some (takeWhile (\<lambda>c. c \<noteq> CHR '','') r))"
proof (cases "dropWhile (\<lambda>c. c \<noteq> CHR '','') v")
  case Nil
  have "split CHR '','' v = [takeWhile (\<lambda>c. c \<noteq> CHR '','') v]"
    using split_hd [of "CHR '',''" v] Nil by (simp del: dropWhile_eq_Nil_conv)
  with Nil show ?thesis
    by (simp add: data_segment_def del: dropWhile_eq_Nil_conv)
next
  case (Cons c r)
  have "split CHR '','' v = takeWhile (\<lambda>c. c \<noteq> CHR '','') v # split CHR '','' r"
    using split_hd [of "CHR '',''" v] Cons by simp
  moreover have "\<exists>rest. split CHR '','' r = takeWhile (\<lambda>c. c \<noteq> CHR '','') r # rest"
    using split_hd [of "CHR '',''" r] by blast
  ultimately show ?thesis
    using Cons by (auto simp: data_segment_def)
qed

lemma data_segment_payload:
  "(\<exists>d. data_segment v = Some d \<and> d \<noteq> []) \<longleftrightarrow>
   takeWhile (\<lambda>c. c \<noteq> CHR '','') (payload_after_first_comma v) \<noteq> []"
  by (cases "dropWhile (\<lambda>c. c \<noteq> CHR '','') v")
     (simp_all add: data_segment_eq payload_after_first_comma_def del: dropWhile_eq_Nil_conv)


lemma strip_padding_keeps:
  assumes "c \<in> set d" and "c \<noteq> CHR ''=''"
  shows "c \<in> set (strip_padding d)"
proof (cases "rev d")
  case Nil
  with assms show ?thesis by simp
next
  case (Cons c1 r1)
  then have d1: "d = rev r1 @ [c1]" by (simp add: rev_swap)
  show ?thesis
  proof (cases r1)
    case Nil
    with Cons d1 assms show ?thesis by (auto simp: strip_padding_def)
  next
    case (Cons c2 r)
    with d1 have d2: "d = rev r @ [c2, c1]" by simp
    from assms d2 have "c \<in> set (rev r) \<or> c = c2 \<or> c = c1" by auto
    with assms(2) show ?thesis
      by (auto simp: strip_padding_def d2)
  qed
qed

lemma data_image_not_base64:
  assumes "startsWith v ''data:image/''"
  shows "\<not> atob_ok (take 100 v)"
proof -
  from assms have t: "take (length ''data:image/'') v = ''data:image/''"
    by (simp only: startsWith_def)
  have "CHR '':'' \<in> set ''data:image/''"
    by simp
  then have m: "CHR '':'' \<in> set (take (length ''data:image/'') v)"
    by (simp only: t)
  have "set (take (length ''data:image/'') v) \<subseteq> set (take 100 v)"
    by (rule set_take_subset_set_take) simp
  from this m have "CHR '':'' \<in> set (take 100 v)"
    by (rule subsetD)
  then have "CHR '':'' \<in> set (filter (\<lambda>c. \<not> ascii_whitespace c) (take 100 v))"
    by (simp add: ascii_whitespace_def)
  then have "CHR '':'' \<in> set (if length (filter (\<lambda>c. \<not> ascii_whitespace c) (take 100 v)) mod 4 = 0
        then strip_padding (filter (\<lambda>c. \<not> ascii_whitespace c) (take 100 v))
        else filter (\<lambda>c. \<not> ascii_whitespace c) (take 100 v))"
    by (simp add: strip_padding_keeps)
  moreover have "\<not> base64_char CHR '':''"
    by (simp add: base64_char_def)
  ultimately show ?thesis
    unfolding atob_ok_def Let_def list_all_iff by blast
qed

lemma accepted_iff:
  "fst (validateBase64Input var v s) = Some True \<longleftrightarrow>
     (if startsWith v ''data:image/'' then (\<exists>d. data_segment v = Some d \<and> d \<noteq> [])
      else atob_ok (take 100 v))"
  by (cases "startsWith v ''data:image/''"; cases "data_segment v"; cases "atob_ok (take 100 v)")
     (simp_all add: validateBase64Input_def)

lemma validateBase64Input_rejects:
  assumes "fst (validateBase64Input var v s) \<noteq> Some True"
  shows "validateBase64Input var v s =
           (if startsWith v ''data:image/'' then (None, s) else (Some False, hidePreview s))"
  using assms
  by (cases "startsWith v ''data:image/''"; cases "data_segment v"; cases "atob_ok (take 100 v)")
     (simp_all add: validateBase64Input_def split: if_splits)

lemma accepted_independent:
  "fst (validateBase64Input var v s) = Some True \<longleftrightarrow>
   fst (validateBase64Input var' v s') = Some True"
  by (simp add: accepted_iff)

lemma preview_hidden_clearOtherInputs:
  "a \<noteq> Paste \<or> var \<noteq> Basic \<Longrightarrow> preview_hidden (clearOtherInputs var a s)"
  by (auto simp: preview_hidden_def previewElement_clearOtherInputs split: option.splits)

lemma inputHandler_rejected:
  assumes "nonblank v" and "fst (validateBase64Input var v s) \<noteq> Some True"
  shows "inputHandler var v s = clearOtherInputs var Base64 s"
proof -
  let ?t = "clearOtherInputs var Base64 s"
  from assms(2) have "fst (validateBase64Input var v ?t) \<noteq> Some True"
    using accepted_independent by blast
  then have "snd (validateBase64Input var v ?t) = ?t \<or> snd (validateBase64Input var v ?t) = hidePreview ?t"
    by (simp add: validateBase64Input_rejects)
  then have "snd (validateBase64Input var v ?t) = ?t"
    by (auto simp: hidePreview_clearOtherInputs)
  with assms(1) show ?thesis
    by (simp add: inputHandler_def)
qed

lemma updatePreview_cases:
  "updatePreview var src v s = s \<or> updatePreview var src v s = hidePreview s
   \<or> (\<exists>c. updatePreview var src v s = showPreview c s)
   \<or> updatePreview var src v s = loadImagePreview v s"
proof (cases "previewElement s = None")
  case True
  then show ?thesis by (simp add: updatePreview_def)
next
  case False
  then show ?thesis
    by (cases var) (auto simp: updatePreview_def Let_def)
qed

lemma touches_hidePreview:
  "hidePreview s = s\<lparr>previewElement := previewElement (hidePreview s), probes := probes (hidePreview s)\<rparr>"
  by (cases "previewElement s") (simp_all add: hidePreview_def)

lemma touches_showPreview:
  "showPreview c s = s\<lparr>previewElement := previewElement (showPreview c s), probes := probes (showPreview c s)\<rparr>"
  by (cases "previewElement s") (simp_all add: showPreview_def)

lemma touches_loadImagePreview:
  "loadImagePreview v s =
     s\<lparr>previewElement := previewElement (loadImagePreview v s), probes := probes (loadImagePreview v s)\<rparr>"
  by (simp add: loadImagePreview_def)

lemma updatePreview_touches:
  "updatePreview var src v s =
     s\<lparr>previewElement := previewElement (updatePreview var src v s),
       probes := probes (updatePreview var src v s)\<rparr>"
proof -
  from updatePreview_cases [of var src v s]
  consider "updatePreview var src v s = s" | "updatePreview var src v s = hidePreview s"
    | c where "updatePreview var src v s = showPreview c s"
    | "updatePreview var src v s = loadImagePreview v s"
    by blast
  then show ?thesis
  proof cases
    case 1
    then show ?thesis by simp
  next
    case 2
    then show ?thesis using touches_hidePreview [of s] by simp
  next
    case 3
    then show ?thesis using touches_showPreview [of c s] by simp
  next
    case 4
    then show ?thesis using touches_loadImagePreview [of v s] by simp
  qed
qed

lemma parentNode_updatePreview:
  "map_option parentNode (previewElement (updatePreview var src v s)) =
     map_option parentNode (previewElement s)"
proof -
  from updatePreview_cases [of var src v s]
  consider "updatePreview var src v s = s" | "updatePreview var src v s = hidePreview s"
    | c where "updatePreview var src v s = showPreview c s"
    | "updatePreview var src v s = loadImagePreview v s"
    by blast
  then show ?thesis
  proof cases
    case 1
    then show ?thesis by simp
  next
    case 2
    then show ?thesis by (cases "previewElement s") (simp_all add: hidePreview_def)
  next
    case 3
    then show ?thesis by (cases "previewElement s") (simp_all add: showPreview_def)
  next
    case 4
    then show ?thesis by (simp add: loadImagePreview_def)
  qed
qed


lemma updatePreview_no_element:
  "previewElement s = None \<Longrightarrow> updatePreview var src v s = s"
  by (simp add: updatePreview_def)

lemma fire_cases:
  "fire var t s = s \<or> (\<exists>a v. fire var t s = updatePreview var a v s)"
proof (cases t)
  case (PreviewRecheck a)
  then show ?thesis
    by (cases "truthy_value var s a") auto
qed

lemma fire_touches:
  "fire var t s =
     s\<lparr>previewElement := previewElement (fire var t s), probes := probes (fire var t s)\<rparr>"
proof -
  from fire_cases [of var t s]
  consider "fire var t s = s" | a v where "fire var t s = updatePreview var a v s"
    by blast
  then show ?thesis
  proof cases
    case 1
    then show ?thesis by simp
  next
    case 2
    then show ?thesis using updatePreview_touches [of var a v s] by simp
  qed
qed

lemma parentNode_fire:
  "map_option parentNode (previewElement (fire var t s)) =
     map_option parentNode (previewElement s)"
  using fire_cases [of var t s] by (auto simp: parentNode_updatePreview)

lemma fire_no_element: "previewElement s = None \<Longrightarrow> fire var t s = s"
  using fire_cases [of var t s] by (auto simp: updatePreview_no_element)

lemma cleanup_preview:
  "\<exists>s1. cleanup var s = Inr s1
     \<and> previewElement s1 = map_option (\<lambda>p. p\<lparr>parentNode := False\<rparr>) (previewElement s)"
  by (cases var)
     (auto simp: cleanup_def removeChild_def setDragState_def Let_def
           split: option.splits)

section \<open>Properties of the controller\<close>

text \<open>
  C1, as the code has it. In the \<open>Full\<close> and the \<open>Reduced\<close> version, after every
  clearing pass for image, filepath or base64 at most one of these three inputs holds a
  non-empty value, and after a clearing pass for a pasted image none of the three does.
  Hence, on a node that is wired, whose base64 widget is absent or has its \<open>input\<close>
  listener attached, and that starts with at most one of the three set, the same holds
  after every sequence of activations with non-blank values. The pasted input is not in
  any row of either table: no clearing pass empties it, so it is outside the invariant.
\<close>

theorem one_source_among_three:
  "(var \<noteq> Basic \<and> a \<noteq> Paste \<longrightarrow>
      at_most_one [Upload, Filepath, Base64] (clearOtherInputs var a s))
   \<and> filter (nonempty (clearOtherInputs Full Paste s)) [Upload, Filepath, Base64] = []
   \<and> (var \<noteq> Basic \<and> wired s \<and> listening s
        \<and> list_all (\<lambda>av. nonblank (snd av)) acts
        \<and> at_most_one [Upload, Filepath, Base64] s
      \<longrightarrow> at_most_one [Upload, Filepath, Base64] (run var acts s))"
proof (intro conjI)
  show "var \<noteq> Basic \<and> a \<noteq> Paste \<longrightarrow>
          at_most_one [Upload, Filepath, Base64] (clearOtherInputs var a s)"
    by (auto intro: at_most_one_cleared simp: widgets_clearOtherInputs)
  show "filter (nonempty (clearOtherInputs Full Paste s)) [Upload, Filepath, Base64] = []"
    by (simp add: nonempty_def widgets_clearOtherInputs cleared_widgets_def cleared_by_def
          split: option.splits)
  show "var \<noteq> Basic \<and> wired s \<and> listening s
          \<and> list_all (\<lambda>av. nonblank (snd av)) acts
          \<and> at_most_one [Upload, Filepath, Base64] s
        \<longrightarrow> at_most_one [Upload, Filepath, Base64] (run var acts s)"
    by (rule run_keeps_one_source)
qed

theorem one_source_among_three_witness:
  "Full \<noteq> Basic \<and> Filepath \<noteq> Paste
   \<and> at_most_one [Upload, Filepath, Base64] (clearOtherInputs Full Filepath (demo Full))
   \<and> wired (demo Full) \<and> listening (demo Full)
   \<and> list_all (\<lambda>av. nonblank (snd av))
        [(Paste, ''data:image/png;base64,AAA=''), (Filepath, ''x.png''), (Base64, ''QUJD''),
         (Upload, ''y.png'')]
   \<and> at_most_one [Upload, Filepath, Base64] (demo Full)
   \<and> at_most_one [Upload, Filepath, Base64]
        (run Full
           [(Paste, ''data:image/png;base64,AAA=''), (Filepath, ''x.png''), (Base64, ''QUJD''),
            (Upload, ''y.png'')]
           (demo Full))"
proof -
  let ?acts =
    "[(Paste, ''data:image/png;base64,AAA=''), (Filepath, ''x.png''), (Base64, ''QUJD''),
      (Upload, ''y.png'')]"
  have w: "wired (demo Full)"
    by code_simp
  have l: "listening (demo Full)"
    by code_simp
  have nb: "list_all (\<lambda>av. nonblank (snd av)) ?acts"
    by code_simp
  have start: "at_most_one [Upload, Filepath, Base64] (demo Full)"
    by code_simp
  from one_source_among_three [of Full Filepath "demo Full" ?acts] w l nb start
  show ?thesis by simp
qed

text \<open>
  C1 as stated fails for the four inputs of the \<open>Full\<close> version: an image is pasted,
  then a file path is entered; the clearing pass for filepath leaves the pasted value,
  and two inputs are non-empty.
\<close>

theorem pasted_survives_filepath:
  "value_of (run Full [(Paste, ''data:image/png;base64,AAA=''), (Filepath, ''x.png'')]
               (demo Full)) Paste = Some ''data:image/png;base64,AAA=''
   \<and> value_of (run Full [(Paste, ''data:image/png;base64,AAA=''), (Filepath, ''x.png'')]
                 (demo Full)) Filepath = Some ''x.png''
   \<and> \<not> at_most_one [Upload, Filepath, Base64, Paste]
         (run Full [(Paste, ''data:image/png;base64,AAA=''), (Filepath, ''x.png'')]
            (demo Full))"
  by code_simp

text \<open>
  C2, as the code has it. In the \<open>Full\<close> and the \<open>Reduced\<close> version a clearing pass
  empties exactly the inputs that the specification's table lists for the activated
  input and leaves every other value as it was. The \<open>Basic\<close> version has no image
  widget and no table: it empties every input among filepath, base64 and pasted other
  than the activated one.
\<close>

theorem clearing_follows_tables:
  "value_of (clearOtherInputs Full a s) n =
     (if n \<in> spec_clears FullPolicy a then map_option (\<lambda>_. []) (value_of s n)
      else value_of s n)
   \<and> value_of (clearOtherInputs Reduced a s) n =
     (if n \<in> spec_clears ReducedPolicy a then map_option (\<lambda>_. []) (value_of s n)
      else value_of s n)
   \<and> value_of (clearOtherInputs Basic a s) n =
     (if n \<in> {Filepath, Base64, Paste} - {a} then map_option (\<lambda>_. []) (value_of s n)
      else value_of s n)"
  by (cases a; cases n)
     (simp_all add: value_of_def widgets_clearOtherInputs value_of_cleared cleared_by_def)

text \<open>
  C2 as stated fails on the \<open>Basic\<close> version: after an image was pasted, activating
  filepath empties the pasted input, which neither table lists for filepath.
\<close>

theorem basic_version_clears_pasted:
  "value_of (run Basic [(Paste, ''data:image/png;base64,AAA='')] (demo Basic)) Paste =
     Some ''data:image/png;base64,AAA=''
   \<and> value_of (run Basic [(Paste, ''data:image/png;base64,AAA=''), (Filepath, ''x.png'')]
                 (demo Basic)) Paste = Some []
   \<and> Paste \<notin> spec_clears FullPolicy Filepath
   \<and> Paste \<notin> spec_clears ReducedPolicy Filepath"
  by code_simp

text \<open>
  C3, as the code has it. In the \<open>Full\<close> and the \<open>Reduced\<close> version the host state after
  a clearing pass is the one obtained by calling, in the order of the table row, the
  callback of every listed widget that held a non-empty value with the empty string (a
  widget without a callback is only emptied). In the \<open>Basic\<close> version the pass calls
  nothing: the host state is unchanged. In every version each input the pass lists ends
  with the empty value.
\<close>

theorem clearing_fires_synthetic_callbacks:
  "host (clearOtherInputs Full a s) = synthetic_calls Full s (clearingRules Full a) (host s)
   \<and> host (clearOtherInputs Reduced a s) =
       synthetic_calls Reduced s (clearingRules Reduced a) (host s)
   \<and> host (clearOtherInputs Basic a s) = host s
   \<and> (n \<in> set (cleared_by var a) \<longrightarrow>
        value_of (clearOtherInputs var a s) n = map_option (\<lambda>_. []) (value_of s n))"
  by (cases var; cases a; cases n)
     (simp_all add: host_clearOtherInputs value_of_def widgets_clearOtherInputs value_of_cleared
        cleared_by_def)

theorem clearing_fires_synthetic_callbacks_witness:
  "Filepath \<in> set (cleared_by Full Upload)
   \<and> value_of (run Full [(Filepath, ''x.png'')] (demo Full)) Filepath = Some ''x.png''
   \<and> value_of (clearOtherInputs Full Upload (run Full [(Filepath, ''x.png'')] (demo Full)))
        Filepath = Some []
   \<and> host (clearOtherInputs Full Upload (run Full [(Filepath, ''x.png'')] (demo Full))) =
        host (run Full [(Filepath, ''x.png'')] (demo Full)) @ [(''filepath'', [])]"
proof -
  let ?s = "run Full [(Filepath, ''x.png'')] (demo Full)"
  have listed: "Filepath \<in> set (cleared_by Full Upload)"
    by code_simp
  have before: "value_of ?s Filepath = Some ''x.png''"
    by code_simp
  have calls: "synthetic_calls Full ?s (clearingRules Full Upload) (host ?s) =
                 host ?s @ [(''filepath'', [])]"
    by code_simp
  from clearing_fires_synthetic_callbacks [of Upload ?s Filepath Full] listed before calls
  show ?thesis by simp
qed

text \<open>
  C3 as stated fails on the \<open>Basic\<close> version: with \<open>x.png\<close> in the filepath widget,
  whose callback logs its calls, the clearing pass for base64 empties filepath and the
  log gets no entry.
\<close>

theorem basic_version_fires_no_callback:
  "value_of (run Basic [(Filepath, ''x.png'')] (demo Basic)) Filepath = Some ''x.png''
   \<and> map_option (\<lambda>w. is_absent (callback w))
        (widgets (run Basic [(Filepath, ''x.png'')] (demo Basic)) Filepath) = Some False
   \<and> host (run Basic [(Filepath, ''x.png'')] (demo Basic)) = [(''filepath'', ''x.png'')]
   \<and> value_of (clearOtherInputs Basic Base64 (run Basic [(Filepath, ''x.png'')] (demo Basic)))
        Filepath = Some []
   \<and> host (clearOtherInputs Basic Base64 (run Basic [(Filepath, ''x.png'')] (demo Basic))) =
        [(''filepath'', ''x.png'')]"
  by code_simp

text \<open>
  C4, as the code has it. For every base64 input value that is not blank (non-empty after
  trimming), the input handler runs the clearing pass for base64 exactly once, whether
  validation accepts the value or not: the other inputs of the table row are emptied and
  the base64 widget keeps its value. When validation does not accept the value, the
  handler does nothing beyond the clearing pass, which leaves the preview hidden.
\<close>

theorem base64_input_always_clears:
  "nonblank v \<longrightarrow>
     passes (inputHandler var v s) = passes s + 1
     \<and> widgets (inputHandler var v s) = widgets (clearOtherInputs var Base64 s)
     \<and> value_of (inputHandler var v s) Filepath = map_option (\<lambda>_. []) (value_of s Filepath)
     \<and> value_of (inputHandler var v s) Upload =
         (if var = Basic then value_of s Upload else map_option (\<lambda>_. []) (value_of s Upload))
     \<and> value_of (inputHandler var v s) Base64 = value_of s Base64
     \<and> (fst (validateBase64Input var v s) \<noteq> Some True \<longrightarrow>
          inputHandler var v s = clearOtherInputs var Base64 s
          \<and> preview_hidden (inputHandler var v s))"
proof (intro impI conjI)
  assume nb: "nonblank v"
  then show p: "passes (inputHandler var v s) = passes s + 1"
    by (simp add: inputHandler_def passes_clearOtherInputs)
  from nb show w: "widgets (inputHandler var v s) = widgets (clearOtherInputs var Base64 s)"
    by (simp add: inputHandler_def)
  show "value_of (inputHandler var v s) Filepath = map_option (\<lambda>_. []) (value_of s Filepath)"
    unfolding value_of_def w widgets_clearOtherInputs value_of_cleared
    by (cases var) (simp_all add: cleared_by_def)
  show "value_of (inputHandler var v s) Upload =
         (if var = Basic then value_of s Upload else map_option (\<lambda>_. []) (value_of s Upload))"
    unfolding value_of_def w widgets_clearOtherInputs value_of_cleared
    by (cases var) (simp_all add: cleared_by_def)
  show "value_of (inputHandler var v s) Base64 = value_of s Base64"
    unfolding value_of_def w widgets_clearOtherInputs value_of_cleared
    by (cases var) (simp_all add: cleared_by_def)
  assume rej: "fst (validateBase64Input var v s) \<noteq> Some True"
  from nb rej show e: "inputHandler var v s = clearOtherInputs var Base64 s"
    by (rule inputHandler_rejected)
  show "preview_hidden (inputHandler var v s)"
    by (simp only: e) (simp add: preview_hidden_clearOtherInputs)
qed

theorem base64_input_always_clears_witness:
  "nonblank ''QQQQQ''
   \<and> fst (validateBase64Input Full ''QQQQQ'' (run Full [(Filepath, ''x.png'')] (demo Full)))
       \<noteq> Some True
   \<and> value_of (run Full [(Filepath, ''x.png'')] (demo Full)) Filepath = Some ''x.png''
   \<and> passes (run Full [(Filepath, ''x.png'')] (demo Full)) = 1
   \<and> passes (inputHandler Full ''QQQQQ'' (run Full [(Filepath, ''x.png'')] (demo Full))) = 2
   \<and> value_of (inputHandler Full ''QQQQQ'' (run Full [(Filepath, ''x.png'')] (demo Full)))
        Filepath = Some []
   \<and> preview_hidden (inputHandler Full ''QQQQQ'' (run Full [(Filepath, ''x.png'')] (demo Full)))"
proof -
  let ?s = "run Full [(Filepath, ''x.png'')] (demo Full)"
  have nb: "nonblank ''QQQQQ''"
    by code_simp
  have rej: "fst (validateBase64Input Full ''QQQQQ'' ?s) \<noteq> Some True"
    by code_simp
  have before: "value_of ?s Filepath = Some ''x.png''" "passes ?s = 1"
    by code_simp+
  from base64_input_always_clears [of "''QQQQQ''" Full ?s] nb rej before
  show ?thesis by auto
qed

text \<open>
  C4 as stated fails for a value that is not empty but consists of white space: the guard
  \<open>value && value.trim()\<close> of the handler is false, so no clearing pass runs and the
  filepath value stays next to the base64 value.
\<close>

theorem blank_base64_input_clears_nothing:
  "''  '' \<noteq> []
   \<and> value_of (run Full [(Filepath, ''x.png'')] (demo Full)) Filepath = Some ''x.png''
   \<and> passes (run Full [(Filepath, ''x.png'')] (demo Full)) = 1
   \<and> value_of (run Full [(Filepath, ''x.png''), (Base64, ''  '')] (demo Full)) Filepath =
       Some ''x.png''
   \<and> value_of (run Full [(Filepath, ''x.png''), (Base64, ''  '')] (demo Full)) Base64 =
       Some ''  ''
   \<and> passes (run Full [(Filepath, ''x.png''), (Base64, ''  '')] (demo Full)) = 1"
  by code_simp

text \<open>
  C5, as the code has it. Validation accepts a value exactly when it starts with
  \<open>data:image/\<close> and the text between its first comma and the next comma (or the end of
  the string) is non-empty, or when its first 100 characters decode as base64. In the
  input handler, which runs the clearing pass before validating, the preview is hidden
  after every non-blank value that is not accepted.
\<close>

theorem base64_acceptance:
  "(fst (validateBase64Input var v s) = Some True \<longleftrightarrow>
      (startsWith v ''data:image/''
         \<and> takeWhile (\<lambda>c. c \<noteq> CHR '','') (payload_after_first_comma v) \<noteq> [])
      \<or> atob_ok (take 100 v))
   \<and> (nonblank v \<and> fst (validateBase64Input var v s) \<noteq> Some True \<longrightarrow>
        preview_hidden (inputHandler var v s))"
proof (intro conjI impI)
  show "fst (validateBase64Input var v s) = Some True \<longleftrightarrow>
      (startsWith v ''data:image/''
         \<and> takeWhile (\<lambda>c. c \<noteq> CHR '','') (payload_after_first_comma v) \<noteq> [])
      \<or> atob_ok (take 100 v)"
    using data_image_not_base64 [of v]
    by (auto simp: accepted_iff data_segment_payload [symmetric])
next
  assume "nonblank v \<and> fst (validateBase64Input var v s) \<noteq> Some True"
  then have "inputHandler var v s = clearOtherInputs var Base64 s"
    by (simp add: inputHandler_rejected)
  then show "preview_hidden (inputHandler var v s)"
    by (simp add: preview_hidden_clearOtherInputs)
qed

theorem base64_acceptance_witness:
  "nonblank ''QQQQQ''
   \<and> fst (validateBase64Input Full ''QQQQQ'' (demo Full)) \<noteq> Some True
   \<and> preview_hidden (inputHandler Full ''QQQQQ'' (demo Full))
   \<and> fst (validateBase64Input Full ''QQQ'' (demo Full)) = Some True"
proof -
  have nb: "nonblank ''QQQQQ''"
    by code_simp
  have rej: "fst (validateBase64Input Full ''QQQQQ'' (demo Full)) \<noteq> Some True"
    by code_simp
  have acc: "fst (validateBase64Input Full ''QQQ'' (demo Full)) = Some True"
    by code_simp
  from base64_acceptance [of Full "''QQQQQ''" "demo Full"] nb rej acc
  show ?thesis by auto
qed

text \<open>
  C5 as stated fails when the payload after the first comma starts with another comma:
  the payload \<open>,abc\<close> is not empty, but \<open>split(',')\<close> cuts it at the second comma, the
  segment read as data is empty, and validation leaves without accepting.
\<close>

theorem second_comma_cuts_payload:
  "spec_accepts ''data:image/png,,abc''
   \<and> fst (validateBase64Input Full ''data:image/png,,abc'' (demo Full)) = None"
  by code_simp

text \<open>
  C6, as the code has it. A clearing pass of the \<open>Full\<close> or \<open>Reduced\<close> version for image,
  filepath or base64 schedules one re-check, 100 ms later, and the \<open>Reduced\<close> version
  schedules it for every input; the pass itself starts no image probe, leaves the content
  of the preview element alone and leaves the preview hidden. When the timer fires, the
  re-check reads the value the widget holds at that moment and updates the preview from
  it, or does nothing when the widget is missing or empty. The \<open>Full\<close> version schedules
  nothing for a pasted image, and the \<open>Basic\<close> version never schedules anything.
\<close>

theorem recheck_is_deferred:
  "timers (clearOtherInputs var a s) =
     (if var = Basic \<or> (var = Full \<and> a = Paste) then timers s
      else timers s @ [(100, PreviewRecheck a)])
   \<and> probes (clearOtherInputs var a s) = probes s
   \<and> map_option innerHTML (previewElement (clearOtherInputs var a s)) =
       map_option innerHTML (previewElement s)
   \<and> preview_hidden (clearOtherInputs Full a s)
   \<and> preview_hidden (clearOtherInputs Reduced a s)
   \<and> (a \<noteq> Paste \<and> truthy_value var s a = Some v \<longrightarrow>
        fire var (PreviewRecheck a) s = updatePreview var a v s)
   \<and> (truthy_value var s a = None \<longrightarrow> fire var (PreviewRecheck a) s = s)"
  by (simp add: timers_clearOtherInputs probes_clearOtherInputs previewElement_clearOtherInputs
        preview_hidden_clearOtherInputs option.map_comp o_def)

theorem recheck_is_deferred_witness:
  "Filepath \<noteq> Paste
   \<and> truthy_value Full (run Full [(Filepath, ''x.png'')] (demo Full)) Filepath = Some ''x.png''
   \<and> timers (run Full [(Filepath, ''x.png'')] (demo Full)) = [(100, PreviewRecheck Filepath)]
   \<and> fire Full (PreviewRecheck Filepath) (run Full [(Filepath, ''x.png'')] (demo Full)) =
       updatePreview Full Filepath ''x.png'' (run Full [(Filepath, ''x.png'')] (demo Full))
   \<and> truthy_value Full (demo Full) Filepath = None
   \<and> fire Full (PreviewRecheck Filepath) (demo Full) = demo Full"
proof -
  let ?s = "run Full [(Filepath, ''x.png'')] (demo Full)"
  have tv: "truthy_value Full ?s Filepath = Some ''x.png''"
    by code_simp
  have tm: "timers ?s = [(100, PreviewRecheck Filepath)]"
    by code_simp
  have tn: "truthy_value Full (demo Full) Filepath = None"
    by code_simp
  from recheck_is_deferred [of Full Filepath ?s "''x.png''"]
    recheck_is_deferred [of Full Filepath "demo Full" "''x.png''"] tv tm tn
  show ?thesis by auto
qed

text \<open>
  C6 as stated fails for a pasted image in the \<open>Full\<close> version: the clearing pass
  schedules no re-check, and the paste handler shows the preview at once.
\<close>

theorem paste_has_no_recheck:
  "timers (demo Full) = []
   \<and> timers (clearOtherInputs Full Paste (demo Full)) = []
   \<and> timers (run Full [(Paste, ''data:image/png;base64,AAA='')] (demo Full)) = []
   \<and> previewElement (run Full [(Paste, ''data:image/png;base64,AAA='')] (demo Full)) =
       Some \<lparr>display = DisplayBlock, innerHTML = Img ''data:image/png;base64,AAA='',
              parentNode = True\<rparr>"
  by code_simp

text \<open>
  C7, as the code has it. \<open>cleanup\<close> succeeds and detaches the preview element but keeps
  the handler's reference to it. A re-check that fires afterwards raises nothing (no step
  of it can throw) and changes nothing but the preview element and the list of pending
  image probes; the element stays detached from the document. The guard
  \<open>if (!this.previewElement) return\<close> stops the callback only when no preview element was
  ever created.
\<close>

theorem stale_recheck_after_cleanup:
  "\<exists>s1. cleanup var s = Inr s1
     \<and> fire var t s1 =
         s1\<lparr>previewElement := previewElement (fire var t s1), probes := probes (fire var t s1)\<rparr>
     \<and> map_option parentNode (previewElement (fire var t s1)) =
         map_option (\<lambda>_. False) (previewElement s)
     \<and> (previewElement s = None \<longrightarrow> fire var t s1 = s1)"
proof -
  from cleanup_preview [of var s] obtain s1 where
    c: "cleanup var s = Inr s1"
    and p: "previewElement s1 = map_option (\<lambda>p. p\<lparr>parentNode := False\<rparr>) (previewElement s)"
    by blast
  have a: "fire var t s1 =
         s1\<lparr>previewElement := previewElement (fire var t s1), probes := probes (fire var t s1)\<rparr>"
    by (rule fire_touches)
  have b: "map_option parentNode (previewElement (fire var t s1)) =
         map_option (\<lambda>_. False) (previewElement s)"
    by (simp add: parentNode_fire p option.map_comp o_def)
  have d: "previewElement s = None \<longrightarrow> fire var t s1 = s1"
    by (simp add: fire_no_element p)
  show ?thesis
    by (rule exI [of _ s1]) (intro conjI c a b d)
qed

theorem stale_recheck_after_cleanup_witness:
  "previewElement fresh_node = None
   \<and> \<not> isl (cleanup Full fresh_node)
   \<and> fire Full (PreviewRecheck Filepath) (projr (cleanup Full fresh_node)) =
       projr (cleanup Full fresh_node)"
proof -
  have none: "previewElement fresh_node = None"
    by code_simp
  from stale_recheck_after_cleanup [of Full fresh_node "PreviewRecheck Filepath"] none
  obtain s1 where "cleanup Full fresh_node = Inr s1"
    and "fire Full (PreviewRecheck Filepath) s1 = s1"
    by blast
  with none show ?thesis by simp
qed

text \<open>
  C7 as stated fails: the guard does not stop a stale re-check. A base64 value that
  validation rejected leaves the preview hidden and empty and a timer pending; after
  \<open>cleanup\<close> the timer's callback writes an image into the detached element and sets its
  display to \<open>block\<close>.
\<close>

theorem stale_recheck_rewrites_preview:
  "timers (run Full [(Base64, ''QQQQQ'')] (demo Full)) = [(100, PreviewRecheck Base64)]
   \<and> \<not> isl (cleanup Full (run Full [(Base64, ''QQQQQ'')] (demo Full)))
   \<and> previewElement (projr (cleanup Full (run Full [(Base64, ''QQQQQ'')] (demo Full)))) =
       Some \<lparr>display = DisplayNone, innerHTML = NoContent, parentNode = False\<rparr>
   \<and> previewElement
        (fire Full (PreviewRecheck Base64)
           (projr (cleanup Full (run Full [(Base64, ''QQQQQ'')] (demo Full))))) =
       Some \<lparr>display = DisplayBlock, innerHTML = Img ''data:image/png;base64,QQQQQ'',
              parentNode = False\<rparr>"
  by code_simp

text \<open>
  C8. \<open>cleanup\<close> is idempotent, in all three versions and from every state: the first
  call succeeds, and a second call on the state it leaves succeeds as well, without a
  removal error, and returns that state unchanged. The second call finds no recorded
  listener, a preview element without a parent, no stored colours and no reference on the
  node, so every guarded step is skipped.
\<close>

theorem cleanup_idempotent:
  "\<exists>s1. cleanup var s = Inr s1 \<and> cleanup var s1 = Inr s1"
  by (cases var)
     (auto simp: cleanup_def removeChild_def setDragState_def Let_def
           split: option.splits)

text \<open>
  C9. \<open>setupEventListeners\<close> replaces the callback of the image and filepath widgets
  it finds by a wrapper that holds the previous callback; every other callback stays as
  it was. For every value, blank or not, a wrapper around a host callback calls that
  callback once with the same value, after the clearing pass and the preview update when
  the value is not blank, and returns its result; a wrapper around an empty slot returns
  \<open>undefined\<close>.
\<close>

theorem wrapper_forwards_to_original:
  "map_option callback (widgets (setupEventListeners var s) n) =
     (if (n = Upload \<or> n = Filepath) \<and> n \<in> set (findWidgets var)
      then map_option (\<lambda>w. Wrapper n (callback w)) (widgets s n)
      else map_option callback (widgets s n))
   \<and> invoke var (Wrapper src (Host f)) v s =
       (let s1 = (if nonblank v then updatePreview var src v (clearOtherInputs var src s) else s)
        in (Some (fst (f v (host s1))), s1\<lparr>host := snd (f v (host s1))\<rparr>))
   \<and> fst (invoke var (Wrapper src Absent) v s) = None"
proof (intro conjI)
  show "map_option callback (widgets (setupEventListeners var s) n) =
     (if (n = Upload \<or> n = Filepath) \<and> n \<in> set (findWidgets var)
      then map_option (\<lambda>w. Wrapper n (callback w)) (widgets s n)
      else map_option callback (widgets s n))"
    by (auto simp: widgets_setupEventListeners callback_wrap widgets_wrap_other)
  show "invoke var (Wrapper src (Host f)) v s =
       (let s1 = (if nonblank v then updatePreview var src v (clearOtherInputs var src s) else s)
        in (Some (fst (f v (host s1))), s1\<lparr>host := snd (f v (host s1))\<rparr>))"
    by (simp add: Let_def)
  show "fst (invoke var (Wrapper src Absent) v s) = None"
    by simp
qed

text \<open>
  C10. A callback wrapper called with an empty or whitespace-only value runs no clearing
  pass and no preview update: it returns what the original callback returns and changes
  the state only as the original callback changes the host. The calls that the clearing
  pass makes to the callbacks of the widgets it empties pass the empty string, so one
  clearing pass, with all the callbacks it fires, is counted once, whatever callbacks the
  widgets carry; a wrapper around a host callback called with a non-blank value runs
  exactly one pass, and so do the base64 input handler and the handler of a pasted or
  dropped image. The recursion between
  \<^const>\<open>invoke\<close>, \<^const>\<open>clearOtherInputs\<close> and \<^const>\<open>clearEach\<close> terminates: the
  three are total functions, by the termination proof given with their definition.
\<close>

theorem blank_value_runs_no_pass:
  "(\<not> nonblank v \<longrightarrow>
      invoke var (Wrapper src originalCallback) v s =
        (forward_result originalCallback v (host s),
         s\<lparr>host := forward originalCallback v (host s)\<rparr>))
   \<and> passes (clearOtherInputs var a s) = passes s + 1
   \<and> (nonblank v \<and> host_only originalCallback \<longrightarrow>
        passes (snd (invoke var (Wrapper src originalCallback) v s)) = passes s + 1)
   \<and> (nonblank v \<longrightarrow> passes (inputHandler var v s) = passes s + 1)
   \<and> (var \<noteq> Reduced \<and> has_widget var s Paste \<longrightarrow>
        passes (reader_onload var v s) = passes s + 1)"
  by (auto simp: invoke_blank invoke_host_only passes_clearOtherInputs inputHandler_def
        reader_onload_def has_widget_def set_value_def Let_def split: option.splits)

theorem blank_value_runs_no_pass_witness:
  "\<not> nonblank ''  ''
   \<and> invoke Full (Wrapper Filepath (log_callback Filepath)) ''  '' (demo Full) =
       (Some (), (demo Full)\<lparr>host := [(''filepath'', ''  '')]\<rparr>)
   \<and> nonblank ''x.png'' \<and> host_only (log_callback Filepath)
   \<and> passes (snd (invoke Full (Wrapper Filepath (log_callback Filepath)) ''x.png'' (demo Full))) = 1
   \<and> passes (inputHandler Full ''x.png'' (demo Full)) = 1
   \<and> Full \<noteq> Reduced \<and> has_widget Full (demo Full) Paste
   \<and> passes (reader_onload Full ''x.png'' (demo Full)) = 1"
proof -
  have blank: "\<not> nonblank ''  ''" and nb: "nonblank ''x.png''"
    by code_simp+
  have ho: "host_only (log_callback Filepath)"
    by (simp add: log_callback_def)
  have hw: "has_widget Full (demo Full) Paste"
    by code_simp
  have start: "passes (demo Full) = 0" "host (demo Full) = []"
    by code_simp+
  have fw: "forward_result (log_callback Filepath) ''  '' [] = Some ()"
    "forward (log_callback Filepath) ''  '' [] = [(''filepath'', ''  '')]"
    by (simp_all add: log_callback_def widget_name_def)
  from blank_value_runs_no_pass
         [of "''  ''" Full Filepath "log_callback Filepath" "demo Full" Filepath]
    blank_value_runs_no_pass
         [of "''x.png''" Full Filepath "log_callback Filepath" "demo Full" Filepath]
    blank nb ho hw start fw
  show ?thesis by auto
qed

end
